theory Spec2Isabelle
  imports Main "HOL-Library.Log_Nat"
begin

section \<open>The host's number type\<close>

text \<open>
  The payload of an \<open>Integer\<close> object and of an \<open>IntegerLiteral\<close> node is a TypeScript
  \<open>number\<close>: an IEEE 754 binary64 value. A finite value is kept as a sign and an exact
  rational magnitude, so that \<open>+0\<close> and \<open>-0\<close> are two values; every arithmetic result is
  rounded to the nearest binary64 value, ties to even, as ECMAScript prescribes.
\<close>

datatype number = NaN | Infinity bool | Finite bool rat

definition pow2 :: "int \<Rightarrow> rat" where
  "pow2 k = (if 0 \<le> k then 2 ^ nat k else 1 / 2 ^ nat (- k))"

text \<open>\<open>floor_log2 q\<close> is the \<open>k\<close> with \<open>2^k \<le> q < 2^(k+1)\<close>, for a positive \<open>q\<close>.\<close>

definition floor_log2 :: "rat \<Rightarrow> int" where
  "floor_log2 q =
     (let (a, b) = quotient_of q;
          k = bitlen a - bitlen b
      in if pow2 k \<le> q then k else k - 1)"

definition round_half_even :: "rat \<Rightarrow> int" where
  "round_half_even x =
     (let f = \<lfloor>x\<rfloor>; d = x - of_int f
      in if d < 1 / 2 then f
         else if 1 / 2 < d then f + 1
         else if even f then f else f + 1)"

text \<open>
  \<open>round_double s q\<close> is the binary64 value nearest to the exact magnitude \<open>q \<ge> 0\<close>, with
  sign \<open>s\<close> (\<open>True\<close> is negative): 53 significant bits, the exponent of the last bit
  never below \<open>-1074\<close> (subnormal values), and an overflow to infinity from \<open>2^1024\<close> on.
\<close>

definition round_double :: "bool \<Rightarrow> rat \<Rightarrow> number" where
  "round_double s q =
     (if q = 0 then Finite s 0
      else let e = max (floor_log2 q - 52) (- 1074);
               m = round_half_even (q / pow2 e)
           in if 971 < e \<or> (e = 971 \<and> 2 ^ 53 \<le> m) then Infinity s
              else Finite s (of_int m * pow2 e))"

definition signed :: "bool \<Rightarrow> rat \<Rightarrow> rat" where
  "signed s q = (if s then - q else q)"

fun number_neg :: "number \<Rightarrow> number" where
  "number_neg NaN = NaN"
| "number_neg (Infinity s) = Infinity (\<not> s)"
| "number_neg (Finite s q) = Finite (\<not> s) q"

fun number_add :: "number \<Rightarrow> number \<Rightarrow> number" where
  "number_add NaN _ = NaN"
| "number_add _ NaN = NaN"
| "number_add (Infinity s) (Infinity t) = (if s = t then Infinity s else NaN)"
| "number_add (Infinity s) (Finite _ _) = Infinity s"
| "number_add (Finite _ _) (Infinity t) = Infinity t"
| "number_add (Finite s p) (Finite t q) =
     (let x = signed s p + signed t q
      in if x = 0 then Finite (s \<and> t) 0 else round_double (x < 0) \<bar>x\<bar>)"

definition number_sub :: "number \<Rightarrow> number \<Rightarrow> number" where
  "number_sub a b = number_add a (number_neg b)"

fun number_mul :: "number \<Rightarrow> number \<Rightarrow> number" where
  "number_mul NaN _ = NaN"
| "number_mul _ NaN = NaN"
| "number_mul (Infinity s) (Infinity t) = Infinity (s \<noteq> t)"
| "number_mul (Infinity s) (Finite t q) = (if q = 0 then NaN else Infinity (s \<noteq> t))"
| "number_mul (Finite s p) (Infinity t) = (if p = 0 then NaN else Infinity (s \<noteq> t))"
| "number_mul (Finite s p) (Finite t q) = round_double (s \<noteq> t) (p * q)"

fun number_div :: "number \<Rightarrow> number \<Rightarrow> number" where
  "number_div NaN _ = NaN"
| "number_div _ NaN = NaN"
| "number_div (Infinity s) (Infinity t) = NaN"
| "number_div (Infinity s) (Finite t q) = Infinity (s \<noteq> t)"
| "number_div (Finite s p) (Infinity t) = Finite (s \<noteq> t) 0"
| "number_div (Finite s p) (Finite t q) =
     (if q = 0 then (if p = 0 then NaN else Infinity (s \<noteq> t))
      else round_double (s \<noteq> t) (p / q))"

text \<open>
  Comparisons: \<open>NaN\<close> compares false with everything, itself included, except under
  \<open>!=\<close>; the two zeros are equal. \<open>number_key\<close> places the other values on one line.
\<close>

fun number_key :: "number \<Rightarrow> int \<times> rat" where
  "number_key NaN = (0, 0)"
| "number_key (Infinity s) = (if s then - 1 else 1, 0)"
| "number_key (Finite s q) = (0, signed s q)"

definition number_lt :: "number \<Rightarrow> number \<Rightarrow> bool" where
  "number_lt a b =
     (a \<noteq> NaN \<and> b \<noteq> NaN \<and>
      (fst (number_key a) < fst (number_key b) \<or>
       (fst (number_key a) = fst (number_key b) \<and> snd (number_key a) < snd (number_key b))))"

definition number_gt :: "number \<Rightarrow> number \<Rightarrow> bool" where
  "number_gt a b = number_lt b a"

definition number_eq :: "number \<Rightarrow> number \<Rightarrow> bool" where
  "number_eq a b = (a \<noteq> NaN \<and> b \<noteq> NaN \<and> number_key a = number_key b)"

definition number_ne :: "number \<Rightarrow> number \<Rightarrow> bool" where
  "number_ne a b = (\<not> number_eq a b)"

text \<open>A value of the host type is integral when it is finite with no fractional part.\<close>

fun is_integral :: "number \<Rightarrow> bool" where
  "is_integral (Finite s q) = (of_int \<lfloor>q\<rfloor> = q)"
| "is_integral _ = False"

text \<open>The value of the host type that stands for the integer \<open>i\<close>.\<close>

definition number_of_int :: "int \<Rightarrow> number" where
  "number_of_int i = Finite (i < 0) (of_int \<bar>i\<bar>)"

section \<open>The syntax tree\<close>

text \<open>
  Modelled from the spec: the \<open>ast\<close> module that \<open>evaluator.ts\<close> imports (the node
  classes and the enumerations \<open>ProgramKind\<close>, \<open>StatementKind\<close> and \<open>ExpressionKind\<close>)
  is not among the files of the evaluator. One constructor stands for each node kind of
  the spec's data model, with the fields the evaluator reads; the originating token of a
  node, which the evaluator never reads, is left out. \<open>evaluate\<close> takes any \<open>Node\<close> and
  dispatches on its kind at run time, so one type holds every kind.
\<close>

datatype Node =
    Program "Node list"
  | LetStatement Node Node
  | ReturnStatement Node
  | ExpressionStatement Node
  | Identifier string
  | IntegerLiteral number
  | BooleanExpression bool
  | PrefixExpression string Node
  | InfixExpression string Node Node

section \<open>Runtime objects\<close>

text \<open>
  Modelled from the spec: the enumeration \<open>ObjectTypes\<close> of the \<open>object\<close> module that
  \<open>evaluator.ts\<close> imports; the module is not among the files of the evaluator.
\<close>

datatype ObjectTypes = INTEGER | BOOLEAN | NULL_TYPE

text \<open>
  The evaluator compares objects by identity, so an object is kept with its reference.
  The three objects that the module creates once when it is loaded have references of
  their own; \<open>Allocated n\<close> is the reference of the object that a \<open>new\<close> expression of
  the evaluator created when \<open>n\<close> objects had been created before it.
\<close>

datatype ref = NULL_ref | TRUE_ref | FALSE_ref | Allocated nat

text \<open>
  Modelled from the spec: the classes \<open>Integer\<close>, \<open>BooleanLiteral\<close> and \<open>Null\<close> of the
  \<open>object\<close> module, each with its reference and its field \<open>value\<close>, which nothing
  assigns after construction.
\<close>

datatype EvalObject =
    Integer (ref_of: ref) (Integer_value: number)
  | BooleanLiteral (ref_of: ref) (BooleanLiteral_value: bool)
  | Null (ref_of: ref)

text \<open>Modelled from the spec: the method \<open>type()\<close> of the three classes.\<close>

fun type_of :: "EvalObject \<Rightarrow> ObjectTypes" where
  "type_of (Integer _ _) = INTEGER"
| "type_of (BooleanLiteral _ _) = BOOLEAN"
| "type_of (Null _) = NULL_TYPE"

text \<open>
  The state threaded through the evaluator is the number of objects that its \<open>new\<close>
  expressions have created so far; each \<open>new\<close> takes the next reference.
\<close>

type_synonym heap = nat

definition new_Integer :: "number \<Rightarrow> heap \<Rightarrow> EvalObject \<times> heap" where
  "new_Integer v h = (Integer (Allocated h) v, Suc h)"

definition new_BooleanLiteral :: "bool \<Rightarrow> heap \<Rightarrow> EvalObject \<times> heap" where
  "new_BooleanLiteral v h = (BooleanLiteral (Allocated h) v, Suc h)"

definition new_Null :: "heap \<Rightarrow> EvalObject \<times> heap" where
  "new_Null h = (Null (Allocated h), Suc h)"

text \<open>The module-level constants of \<open>evaluator.ts\<close>.\<close>

definition NULL :: EvalObject where
  "NULL = Null NULL_ref"

definition TRUE :: EvalObject where
  "TRUE = BooleanLiteral TRUE_ref True"

definition FALSE :: EvalObject where
  "FALSE = BooleanLiteral FALSE_ref False"

text \<open>
  What \<open>evaluate\<close> returns, of type \<open>EvalObject | null | undefined\<close>. An object is
  truthy; \<open>null\<close> and \<open>undefined\<close> are the two absent results.
\<close>

datatype result = Obj EvalObject | JSnull | JSundefined

fun absent :: "result \<Rightarrow> bool" where
  "absent (Obj _) = False"
| "absent JSnull = True"
| "absent JSundefined = True"

text \<open>
  \<open>created_in h h' r\<close>: if the result \<open>r\<close> is an object made by \<open>new\<close>, it was made
  while the counter went from \<open>h\<close> to \<open>h'\<close>.
\<close>

fun created_in :: "heap \<Rightarrow> heap \<Rightarrow> result \<Rightarrow> bool" where
  "created_in h h' (Obj obj) = (case ref_of obj of Allocated k \<Rightarrow> h \<le> k \<and> k < h' | _ \<Rightarrow> True)"
| "created_in h h' _ = True"

section \<open>The evaluator\<close>

definition toBooleanLiteral :: "bool \<Rightarrow> EvalObject" where
  "toBooleanLiteral v = (if v then TRUE else FALSE)"

text \<open>
  The \<open>switch\<close> on the operand compares references (strict equality of objects). In
  the functions after it, every cast to \<open>Integer\<close> or \<open>BooleanLiteral\<close> comes after the
  test on \<open>type()\<close> that allows it, so a field \<open>value\<close> is read from an object of its
  class only.
\<close>

definition evaluateBangOperatorExpression :: "EvalObject \<Rightarrow> EvalObject" where
  "evaluateBangOperatorExpression operand =
     (if ref_of operand = ref_of TRUE then FALSE
      else if ref_of operand = ref_of FALSE then TRUE
      else if ref_of operand = ref_of NULL then TRUE
      else FALSE)"

definition evaluateMinusOperatorExpression :: "EvalObject \<Rightarrow> heap \<Rightarrow> result \<times> heap" where
  "evaluateMinusOperatorExpression operand h =
     (if type_of operand \<noteq> INTEGER then (JSnull, h)
      else let (obj, h') = new_Integer (number_neg (Integer_value operand)) h in (Obj obj, h'))"

definition evaluatePrefixExpression :: "string \<Rightarrow> EvalObject \<Rightarrow> heap \<Rightarrow> result \<times> heap" where
  "evaluatePrefixExpression operator operand h =
     (if operator = ''!'' then (Obj (evaluateBangOperatorExpression operand), h)
      else if operator = ''-'' then evaluateMinusOperatorExpression operand h
      else (Obj NULL, h))"

definition evaluateIntegerInfixExpression ::
  "string \<Rightarrow> EvalObject \<Rightarrow> EvalObject \<Rightarrow> heap \<Rightarrow> EvalObject \<times> heap" where
  "evaluateIntegerInfixExpression operator left right h =
     (let leftValue = Integer_value left; rightValue = Integer_value right
      in if operator = ''+'' then new_Integer (number_add leftValue rightValue) h
         else if operator = ''-'' then new_Integer (number_sub leftValue rightValue) h
         else if operator = ''*'' then new_Integer (number_mul leftValue rightValue) h
         else if operator = ''/'' then new_Integer (number_div leftValue rightValue) h
         else if operator = ''<'' then new_BooleanLiteral (number_lt leftValue rightValue) h
         else if operator = ''>'' then new_BooleanLiteral (number_gt leftValue rightValue) h
         else if operator = ''=='' then new_BooleanLiteral (number_eq leftValue rightValue) h
         else if operator = ''!='' then new_BooleanLiteral (number_ne leftValue rightValue) h
         else new_Null h)"

definition evaluateBooleanInfixExpression ::
  "string \<Rightarrow> EvalObject \<Rightarrow> EvalObject \<Rightarrow> heap \<Rightarrow> EvalObject \<times> heap" where
  "evaluateBooleanInfixExpression operator left right h =
     (let leftValue = BooleanLiteral_value left; rightValue = BooleanLiteral_value right
      in if operator = ''=='' then (toBooleanLiteral (leftValue = rightValue), h)
         else if operator = ''!='' then (toBooleanLiteral (leftValue \<noteq> rightValue), h)
         else new_Null h)"

definition evaluateInfixExpression ::
  "string \<Rightarrow> EvalObject \<Rightarrow> EvalObject \<Rightarrow> heap \<Rightarrow> EvalObject \<times> heap" where
  "evaluateInfixExpression operator left right h =
     (if type_of left = INTEGER \<and> type_of right = INTEGER
      then evaluateIntegerInfixExpression operator left right h
      else if type_of left = BOOLEAN \<and> type_of right = BOOLEAN
      then evaluateBooleanInfixExpression operator left right h
      else new_Null h)"

text \<open>
  \<open>evaluateStatements\<close> is the loop over the statements; its second argument is the
  local variable \<open>result\<close>, which is \<open>undefined\<close> until the first statement is evaluated.
  In the case of a prefix expression, \<open>a && b\<close> is \<open>a\<close> itself when \<open>a\<close> is \<open>null\<close> or
  \<open>undefined\<close>; in the case of an infix expression, the \<open>break\<close> leaves the function
  without a \<open>return\<close>, so the call yields \<open>undefined\<close>.
\<close>

function evaluate :: "Node \<Rightarrow> heap \<Rightarrow> result \<times> heap"
  and evaluateStatements :: "Node list \<Rightarrow> result \<Rightarrow> heap \<Rightarrow> result \<times> heap" where
  "evaluate (Program statements) h = evaluateStatements statements JSundefined h"
| "evaluate (ExpressionStatement expression) h = evaluate expression h"
| "evaluate (IntegerLiteral v) h = (let (obj, h') = new_Integer v h in (Obj obj, h'))"
| "evaluate (BooleanExpression v) h = (Obj (toBooleanLiteral v), h)"
| "evaluate (PrefixExpression operator right) h =
     (case evaluate right h of
        (Obj evaluatedRightExpressions, h') \<Rightarrow>
          evaluatePrefixExpression operator evaluatedRightExpressions h'
      | (falsy, h') \<Rightarrow> (falsy, h'))"
| "evaluate (InfixExpression operator left right) h =
     (case evaluate left h of
        (evaluatedLeftExpression, h1) \<Rightarrow>
          (case evaluate right h1 of
             (evaluatedRightExpression, h2) \<Rightarrow>
               (case (evaluatedLeftExpression, evaluatedRightExpression) of
                  (Obj l, Obj r) \<Rightarrow>
                    (let (obj, h3) = evaluateInfixExpression operator l r h2 in (Obj obj, h3))
                | _ \<Rightarrow> (JSundefined, h2))))"
| "evaluate (LetStatement name v) h = (JSnull, h)"
| "evaluate (ReturnStatement returnValue) h = (JSnull, h)"
| "evaluate (Identifier name) h = (JSnull, h)"
| "evaluateStatements [] result h = (result, h)"
| "evaluateStatements (statement # statements) result h =
     (case evaluate statement h of (result', h') \<Rightarrow> evaluateStatements statements result' h')"
  by pat_completeness auto

text \<open>
  Every recursive call of \<open>evaluate\<close> is on a child of its node, and the loop calls
  \<open>evaluate\<close> on the head of the statements still to run: the size of the tree in the
  argument decreases with each call.
\<close>

fun call_size :: "Node \<times> heap + Node list \<times> result \<times> heap \<Rightarrow> nat" where
  "call_size (Inl call) = size (fst call)"
| "call_size (Inr call) = size_list size (fst call)"

termination evaluate
  by (relation "measure call_size") auto

section \<open>Properties of the number type\<close>

text \<open>
  The host's arithmetic is not part of the evaluator; the lemmas of this section check
  the model of it: the exponent that \<open>floor_log2\<close> finds, the exactness of
  \<open>round_double\<close> on the values that binary64 represents, and with it the exactness of
  the four operations on integers below \<open>2^53\<close>.
\<close>

lemma pow2_powi: "pow2 k = 2 powi k"
  by (simp add: pow2_def power_int_def inverse_eq_divide power_one_over)

lemma pow2_pos: "0 < pow2 k"
  by (simp add: pow2_powi)

lemma pow2_add: "pow2 (j + k) = pow2 j * pow2 k"
  by (simp add: pow2_powi power_int_add)

lemma pow2_nat: "pow2 (int n) = 2 ^ n"
  by (simp add: pow2_def)

lemma pow2_less_imp: "pow2 j < pow2 k \<Longrightarrow> j < k"
proof (rule ccontr)
  assume a: "pow2 j < pow2 k" and "\<not> j < k"
  then have "k \<le> j" by simp
  then have "pow2 k \<le> pow2 j"
    unfolding pow2_powi by (rule power_int_increasing) simp
  with a show False by simp
qed

lemma quotient_of_pos:
  assumes "0 < q" and "quotient_of q = (a, b)"
  shows "0 < a" and "0 < b" and "q = of_int a / of_int b"
proof -
  show b: "0 < b" using assms(2) by (rule quotient_of_denom_pos)
  show q: "q = of_int a / of_int b" using assms(2) by (rule quotient_of_div)
  show "0 < a" using assms(1) b q by (simp add: zero_less_divide_iff)
qed

lemma bitlen_bounds_rat:
  assumes "0 < a"
  shows "pow2 (bitlen a - 1) \<le> of_int a" and "of_int a < pow2 (bitlen a)"
proof -
  note bounds = bitlen_bounds [OF assms]
  have l: "1 \<le> bitlen a"
    using assms bitlen_eq_zero_iff [of a] bitlen_nonneg [of a] by linarith
  have "(of_int (2 ^ nat (bitlen a - 1)) :: rat) \<le> of_int a"
    using bounds by (simp only: of_int_le_iff)
  then show "pow2 (bitlen a - 1) \<le> of_int a"
    using l by (simp add: pow2_def)
  have "(of_int a :: rat) < of_int (2 ^ nat (bitlen a))"
    using bounds by (simp only: of_int_less_iff)
  then show "of_int a < pow2 (bitlen a)"
    using l by (simp add: pow2_def)
qed

lemma pow2_diff: "pow2 (j - k) = pow2 j / pow2 k"
  by (simp add: pow2_powi power_int_diff)

lemma floor_log2_cases:
  assumes "quotient_of q = (a, b)"
  shows "floor_log2 q =
    (if pow2 (bitlen a - bitlen b) \<le> q then bitlen a - bitlen b else bitlen a - bitlen b - 1)"
  by (simp add: floor_log2_def assms Let_def)

lemma floor_log2_le:
  assumes "0 < q"
  shows "pow2 (floor_log2 q) \<le> q"
proof -
  obtain a b where ab: "quotient_of q = (a, b)" by (cases "quotient_of q")
  note pos = quotient_of_pos [OF assms ab]
  define k where "k = bitlen a - bitlen b"
  note fl = floor_log2_cases [OF ab, folded k_def]
  show ?thesis
  proof (cases "pow2 k \<le> q")
    case True
    then show ?thesis by (simp add: fl)
  next
    case False
    have "k - 1 = (bitlen a - 1) - bitlen b" by (simp add: k_def)
    then have "pow2 (k - 1) = pow2 (bitlen a - 1) / pow2 (bitlen b)"
      by (simp only: pow2_diff)
    also have "\<dots> \<le> of_int a / of_int b"
      using bitlen_bounds_rat(1) [OF pos(1)] bitlen_bounds_rat(2) [OF pos(2)] pos(1) pos(2)
      by (intro frac_le) (simp_all add: less_imp_le pow2_pos)
    also have "\<dots> = q"
      by (simp only: pos(3))
    finally have "pow2 (k - 1) \<le> q" .
    moreover have "floor_log2 q = k - 1"
      using False by (simp only: fl if_False)
    ultimately show ?thesis by simp
  qed
qed

lemma floor_log2_gt:
  assumes "0 < q"
  shows "q < pow2 (floor_log2 q + 1)"
proof -
  obtain a b where ab: "quotient_of q = (a, b)" by (cases "quotient_of q")
  note pos = quotient_of_pos [OF assms ab]
  define k where "k = bitlen a - bitlen b"
  note fl = floor_log2_cases [OF ab, folded k_def]
  show ?thesis
  proof (cases "pow2 k \<le> q")
    case False
    then show ?thesis by (simp add: fl)
  next
    case True
    have "q = of_int a / of_int b" by (rule pos(3))
    also have "\<dots> < pow2 (bitlen a) / pow2 (bitlen b - 1)"
      using bitlen_bounds_rat(2) [OF pos(1)] bitlen_bounds_rat(1) [OF pos(2)] pos(1) pos(2)
      by (intro frac_less) (simp_all add: less_imp_le pow2_pos)
    also have "\<dots> = pow2 (bitlen a - (bitlen b - 1))"
      by (simp only: pow2_diff)
    also have "bitlen a - (bitlen b - 1) = k + 1"
      by (simp add: k_def)
    finally show ?thesis using True by (simp add: fl)
  qed
qed

lemma round_half_even_of_int: "round_half_even (of_int n) = n"
  by (simp add: round_half_even_def)

lemma round_double_exact:
  assumes m: "0 < m" "m < 2 ^ 53" and e: "- 1074 \<le> e" "e \<le> 971"
  shows "round_double s (of_int m * pow2 e) = Finite s (of_int m * pow2 e)"
proof -
  define q where "q = of_int m * pow2 e"
  define e' where "e' = max (floor_log2 q - 52) (- 1074)"
  have q: "0 < q" using m(1) by (simp add: q_def pow2_pos)
  have "(of_int m :: rat) < of_int (2 ^ 53)" using m(2) by (simp only: of_int_less_iff)
  then have "of_int m < pow2 53" by (simp add: pow2_def)
  then have "q < pow2 53 * pow2 e" by (simp add: q_def pow2_pos)
  then have "pow2 (floor_log2 q) < pow2 (53 + e)"
    using floor_log2_le [OF q] by (simp add: pow2_add)
  then have "floor_log2 q < 53 + e" by (rule pow2_less_imp)
  then have e': "e' \<le> e" "- 1074 \<le> e'" using e by (simp_all add: e'_def)
  define d where "d = nat (e - e')"
  have ed: "e = e' + int d" using e' by (simp add: d_def)
  have "q / pow2 e' = of_int m * (pow2 e' * pow2 (int d)) / pow2 e'"
    by (simp add: q_def ed pow2_add)
  also have "\<dots> = of_int (m * 2 ^ d)"
    using pow2_pos [of e'] by (simp add: pow2_nat)
  finally have r: "round_half_even (q / pow2 e') = m * 2 ^ d"
    by (simp only: round_half_even_of_int)
  have exact: "of_int (m * 2 ^ d) * pow2 e' = q"
    by (simp add: q_def ed pow2_add pow2_nat)
  have no_overflow: "\<not> (971 < e' \<or> (e' = 971 \<and> 2 ^ 53 \<le> m * 2 ^ d))"
  proof -
    have "e' = 971 \<longrightarrow> d = 0" using e e' by (simp add: d_def)
    then show ?thesis using e e' m by auto
  qed
  have "round_double s q = Finite s q"
    using q r exact no_overflow by (simp add: round_double_def Let_def e'_def [symmetric])
  then show ?thesis by (simp add: q_def)
qed


lemma round_double_zero: "round_double s 0 = Finite s 0"
  by (simp add: round_double_def)

lemma round_double_of_int:
  assumes "i \<noteq> 0" and "\<bar>i\<bar> < 2 ^ 53"
  shows "round_double (i < 0) \<bar>of_int i\<bar> = number_of_int i"
  using assms round_double_exact [of "\<bar>i\<bar>" 0 "i < 0"]
  by (simp add: number_of_int_def pow2_def)

lemma signed_of_int: "signed (i < 0) (of_int \<bar>i\<bar>) = of_int i"
  by (simp add: signed_def)

lemma number_add_of_int:
  assumes "\<bar>a + b\<bar> < 2 ^ 53"
  shows "number_add (number_of_int a) (number_of_int b) = number_of_int (a + b)"
proof -
  let ?x = "of_int (a + b) :: rat"
  have eq: "signed (a < 0) (of_int \<bar>a\<bar>) + signed (b < 0) (of_int \<bar>b\<bar>) = ?x"
    by (simp add: signed_def)
  have step: "number_add (number_of_int a) (number_of_int b) =
      (if ?x = 0 then Finite (a < 0 \<and> b < 0) 0 else round_double (?x < 0) \<bar>?x\<bar>)"
    by (simp only: number_of_int_def number_add.simps eq Let_def)
  show ?thesis
  proof (cases "a + b = 0")
    case True
    then have "\<not> (a < 0 \<and> b < 0)" by arith
    then show ?thesis using True by (simp only: step) (simp add: number_of_int_def)
  next
    case False
    have nz: "(?x = 0) = False" using False by (simp only: of_int_eq_0_iff)
    have neg: "(?x < 0) = (a + b < 0)" by (simp only: of_int_less_0_iff)
    show ?thesis
      using round_double_of_int [OF False assms] by (simp only: step nz if_False neg)
  qed
qed

lemma number_neg_of_int: "i \<noteq> 0 \<Longrightarrow> number_neg (number_of_int i) = number_of_int (- i)"
  by (auto simp: number_of_int_def)

lemma number_sub_of_int:
  assumes "\<bar>a - b\<bar> < 2 ^ 53"
  shows "number_sub (number_of_int a) (number_of_int b) = number_of_int (a - b)"
proof -
  let ?x = "of_int (a - b) :: rat"
  have eq: "signed (a < 0) (of_int \<bar>a\<bar>) + signed (\<not> b < 0) (of_int \<bar>b\<bar>) = ?x"
    by (simp add: signed_def)
  have step: "number_sub (number_of_int a) (number_of_int b) =
      (if ?x = 0 then Finite (a < 0 \<and> \<not> b < 0) 0 else round_double (?x < 0) \<bar>?x\<bar>)"
    by (simp only: number_sub_def number_of_int_def number_neg.simps number_add.simps eq Let_def)
  show ?thesis
  proof (cases "a - b = 0")
    case True
    then have "\<not> (a < 0 \<and> \<not> b < 0)" by arith
    then show ?thesis using True by (simp only: step) (simp add: number_of_int_def)
  next
    case False
    have nz: "(?x = 0) = False" using False by (simp only: of_int_eq_0_iff)
    have neg: "(?x < 0) = (a - b < 0)" by (simp only: of_int_less_0_iff)
    show ?thesis
      using round_double_of_int [OF False assms] by (simp only: step nz if_False neg)
  qed
qed

lemma number_mul_of_int:
  assumes "a * b \<noteq> 0" and "\<bar>a * b\<bar> < 2 ^ 53"
  shows "number_mul (number_of_int a) (number_of_int b) = number_of_int (a * b)"
proof -
  have step: "number_mul (number_of_int a) (number_of_int b) =
      round_double ((a < 0) \<noteq> (b < 0)) (of_int \<bar>a\<bar> * of_int \<bar>b\<bar>)"
    by (simp only: number_of_int_def number_mul.simps)
  have sign: "((a < 0) \<noteq> (b < 0)) = (a * b < 0)"
    using assms(1) by (auto simp: mult_less_0_iff)
  have mag: "(of_int \<bar>a\<bar> :: rat) * of_int \<bar>b\<bar> = \<bar>of_int (a * b)\<bar>"
    by (simp add: abs_mult)
  show ?thesis
    using round_double_of_int [OF assms] by (simp only: step sign mag)
qed

lemma number_mul_of_int_zero:
  assumes "a * b = 0"
  shows "number_mul (number_of_int a) (number_of_int b) = Finite ((a < 0) \<noteq> (b < 0)) 0"
proof -
  have "(of_int \<bar>a\<bar> :: rat) * of_int \<bar>b\<bar> = of_int \<bar>a * b\<bar>"
    by (simp add: abs_mult)
  then have "(of_int \<bar>a\<bar> :: rat) * of_int \<bar>b\<bar> = 0"
    using assms by simp
  then show ?thesis
    by (simp only: number_of_int_def number_mul.simps round_double_zero)
qed

lemma number_div_of_int:
  assumes "a \<noteq> 0" and "b dvd a" and "\<bar>a\<bar> < 2 ^ 53"
  shows "number_div (number_of_int a) (number_of_int b) = number_of_int (a div b)"
proof -
  obtain c where c: "a = b * c" using assms(2) ..
  have b: "b \<noteq> 0" and c0: "c \<noteq> 0" using assms(1) c by auto
  have q: "a div b = c" using b c by simp
  have "1 \<le> \<bar>b\<bar>" using b by simp
  then have "1 * \<bar>c\<bar> \<le> \<bar>b\<bar> * \<bar>c\<bar>" by (intro mult_right_mono) simp_all
  then have "\<bar>c\<bar> \<le> \<bar>a\<bar>" by (simp add: c abs_mult)
  then have small: "\<bar>c\<bar> < 2 ^ 53" using assms(3) by simp
  have nz: "((of_int \<bar>b\<bar> :: rat) = 0) = False" using b by simp
  have step: "number_div (number_of_int a) (number_of_int b) =
      round_double ((a < 0) \<noteq> (b < 0)) (of_int \<bar>a\<bar> / of_int \<bar>b\<bar>)"
    by (simp only: number_of_int_def number_div.simps nz if_False)
  have sign: "((a < 0) \<noteq> (b < 0)) = (c < 0)"
    using b c0 by (auto simp: c mult_less_0_iff zero_less_mult_iff)
  have mag: "(of_int \<bar>a\<bar> :: rat) / of_int \<bar>b\<bar> = \<bar>of_int c\<bar>"
    using b by (simp add: c abs_mult)
  show ?thesis
    using round_double_of_int [OF c0 small] by (simp only: step sign mag q)
qed

lemma number_compare_of_int:
  "number_lt (number_of_int a) (number_of_int b) = (a < b)"
  "number_gt (number_of_int a) (number_of_int b) = (b < a)"
  "number_eq (number_of_int a) (number_of_int b) = (a = b)"
  "number_ne (number_of_int a) (number_of_int b) = (a \<noteq> b)"
  by (simp_all add: number_lt_def number_gt_def number_eq_def number_ne_def number_of_int_def
      signed_of_int del: of_int_abs)


lemma round_half_even_nearest: "\<bar>of_int (round_half_even x) - x\<bar> \<le> 1 / 2"
proof -
  have "of_int \<lfloor>x\<rfloor> \<le> x" and "x < of_int \<lfloor>x\<rfloor> + 1" by linarith+
  then show ?thesis
    by (auto simp: round_half_even_def Let_def abs_le_iff)
qed


lemma round_double_overflow:
  assumes "pow2 1024 \<le> q"
  shows "round_double s q = Infinity s"
proof -
  have q: "0 < q" using assms pow2_pos [of 1024] by simp
  have "pow2 1024 < pow2 (floor_log2 q + 1)"
    using assms floor_log2_gt [OF q] by simp
  then have "1024 < floor_log2 q + 1" by (rule pow2_less_imp)
  then have "1023 < floor_log2 q" by simp
  then show ?thesis using q by (simp add: round_double_def Let_def)
qed

lemma round_double_underflow:
  assumes "0 < q" and "q < pow2 (- 1075)"
  shows "round_double s q = Finite s 0"
proof -
  have "pow2 (floor_log2 q) < pow2 (- 1075)"
    using floor_log2_le [OF assms(1)] assms(2) by simp
  then have "floor_log2 q < - 1075" by (rule pow2_less_imp)
  then have e: "max (floor_log2 q - 52) (- 1074) = - 1074" by simp
  define x where "x = q / pow2 (- 1074)"
  have "pow2 (- 1075) = pow2 (- 1074) * pow2 (- 1)"
    by (simp only: pow2_add [symmetric]) simp
  then have "q < pow2 (- 1074) * (1 / 2)"
    using assms(2) by (simp add: pow2_def [of "- 1"])
  then have x: "0 < x" "x < 1 / 2"
    using assms(1) pow2_pos [of "- 1074"] by (simp_all add: x_def pos_divide_less_eq mult.commute)
  then have "\<lfloor>x\<rfloor> = 0" by (simp add: floor_eq_iff)
  then have "round_half_even x = 0"
    using x by (simp add: round_half_even_def)
  then show ?thesis
    using assms(1) by (simp add: round_double_def Let_def e x_def [symmetric])
qed

lemma round_double_error:
  assumes "0 < q" and "round_double s q = Finite t r"
  shows "\<bar>r - q\<bar> \<le> pow2 (max (floor_log2 q - 52) (- 1074)) / 2"
proof -
  define e where "e = max (floor_log2 q - 52) (- 1074)"
  define m where "m = round_half_even (q / pow2 e)"
  have r: "r = of_int m * pow2 e"
    using assms by (simp add: round_double_def Let_def e_def [symmetric] m_def [symmetric]
        split: if_splits)
  have "r - q = (of_int m - q / pow2 e) * pow2 e"
    using pow2_pos [of e] by (simp add: r left_diff_distrib)
  then have "\<bar>r - q\<bar> = \<bar>of_int m - q / pow2 e\<bar> * pow2 e"
    using pow2_pos [of e] by (simp add: abs_mult)
  also have "\<dots> \<le> 1 / 2 * pow2 e"
    using round_half_even_nearest [of "q / pow2 e"] pow2_pos [of e]
    by (intro mult_right_mono) (simp_all add: m_def)
  finally show ?thesis by (simp add: e_def)
qed

text \<open>
  A quotient of two integers below \<open>2^53\<close> that is not an integer is not rounded to one:
  the rounding error is below \<open>1 / \<bar>b\<bar>\<close>, the least distance from the quotient to an
  integer.
\<close>

lemma number_div_of_int_not_integral:
  assumes b: "b \<noteq> 0" and nd: "\<not> b dvd a" and sa: "\<bar>a\<bar> < 2 ^ 53" and sb: "\<bar>b\<bar> < 2 ^ 53"
  shows "\<exists>r. number_div (number_of_int a) (number_of_int b) = Finite ((a < 0) \<noteq> (b < 0)) r \<and>
             \<not> is_integral (Finite ((a < 0) \<noteq> (b < 0)) r)"
proof -
  define s where "s = ((a < 0) \<noteq> (b < 0))"
  define A where "A = (of_int \<bar>a\<bar> :: rat)"
  define B where "B = (of_int \<bar>b\<bar> :: rat)"
  define q where "q = A / B"
  have a: "a \<noteq> 0" using nd by auto
  have A: "1 \<le> A" "A < 2 ^ 53"
  proof -
    have "1 \<le> \<bar>a\<bar>" using a by simp
    then have "(of_int 1 :: rat) \<le> of_int \<bar>a\<bar>" by (simp only: of_int_le_iff)
    then show "1 \<le> A" by (simp add: A_def)
    have "(of_int \<bar>a\<bar> :: rat) < of_int (2 ^ 53)" using sa by (simp only: of_int_less_iff)
    then show "A < 2 ^ 53" by (simp add: A_def)
  qed
  have B: "1 \<le> B" "B < 2 ^ 53"
  proof -
    have "1 \<le> \<bar>b\<bar>" using b by simp
    then have "(of_int 1 :: rat) \<le> of_int \<bar>b\<bar>" by (simp only: of_int_le_iff)
    then show "1 \<le> B" by (simp add: B_def)
    have "(of_int \<bar>b\<bar> :: rat) < of_int (2 ^ 53)" using sb by (simp only: of_int_less_iff)
    then show "B < 2 ^ 53" by (simp add: B_def)
  qed
  have q: "0 < q" using A B by (simp add: q_def)
  have Bnz: "(B = 0) = False" using B by simp
  have step: "number_div (number_of_int a) (number_of_int b) = round_double s q"
    by (simp only: number_of_int_def number_div.simps A_def [symmetric] B_def [symmetric]
        Bnz if_False s_def q_def)
  define fl where "fl = floor_log2 q"
  define e where "e = max (fl - 52) (- 1074)"
  define m where "m = round_half_even (q / pow2 e)"
  have "q \<le> A" using A B by (simp add: q_def pos_divide_le_eq mult_le_cancel_left1)
  then have "q < pow2 53" using A by (simp add: pow2_def)
  then have "pow2 fl < pow2 53" using floor_log2_le [OF q] by (simp add: fl_def)
  then have fl: "fl < 53" by (rule pow2_less_imp)
  then have e0: "e \<le> 0" by (simp add: e_def)
  define r where "r = of_int m * pow2 e"
  have rd: "round_double s q = Finite s r"
    using q e0 by (simp add: round_double_def Let_def fl_def [symmetric] e_def [symmetric]
        m_def [symmetric] r_def)
  have err: "\<bar>r - q\<bar> \<le> pow2 e / 2"
    using round_double_error [OF q rd] by (simp add: e_def fl_def)
  have small: "pow2 e / 2 < 1 / B"
  proof (cases "fl - 52 \<le> - 1074")
    case True
    then have "e = - 1074" by (simp add: e_def)
    then have "pow2 e / 2 = 1 / 2 ^ 1075" by (simp add: pow2_def)
    also have "\<dots> < 1 / (2 ^ 53 :: rat)"
      by (intro divide_strict_left_mono power_strict_increasing) simp_all
    also have "\<dots> < 1 / B" using B by (intro divide_strict_left_mono) simp_all
    finally show ?thesis .
  next
    case False
    then have "e = fl - 53 + 1" by (simp add: e_def)
    then have "pow2 e = pow2 (fl - 53) * 2" by (simp only: pow2_add) (simp add: pow2_def)
    then have "pow2 e / 2 = pow2 fl / pow2 53" by (simp add: pow2_diff)
    also have "\<dots> \<le> q / pow2 53"
      using floor_log2_le [OF q] pow2_pos [of 53] by (simp add: fl_def divide_right_mono)
    also have "\<dots> = (A / pow2 53) / B" by (simp add: q_def)
    also have "\<dots> < 1 / B"
      using A B by (intro divide_strict_right_mono) (simp_all add: pow2_def)
    finally show ?thesis .
  qed
  have "\<not> is_integral (Finite s r)"
  proof
    assume "is_integral (Finite s r)"
    then obtain n :: int where n: "r = of_int n" by (auto intro: sym)
    have "n * \<bar>b\<bar> \<noteq> \<bar>a\<bar>"
    proof
      assume "n * \<bar>b\<bar> = \<bar>a\<bar>"
      then have "\<bar>b\<bar> dvd \<bar>a\<bar>" by (metis dvd_triv_right)
      then show False using nd by simp
    qed
    then have "1 \<le> \<bar>n * \<bar>b\<bar> - \<bar>a\<bar>\<bar>" by simp
    then have "(of_int 1 :: rat) \<le> of_int \<bar>n * \<bar>b\<bar> - \<bar>a\<bar>\<bar>" by (simp only: of_int_le_iff)
    then have "1 \<le> \<bar>of_int n * B - A\<bar>" by (simp add: A_def B_def)
    moreover have "of_int n * B - A = (r - q) * B"
      using B by (simp add: n q_def left_diff_distrib)
    ultimately have "1 \<le> \<bar>r - q\<bar> * B" using B by (simp add: abs_mult)
    then have "1 / B \<le> \<bar>r - q\<bar>" using B by (simp add: pos_divide_le_eq)
    with err small show False by simp
  qed
  then show ?thesis using step rd by (simp add: s_def)
qed


text \<open>Known results of binary64 arithmetic: \<open>0.1 + 0.2\<close>, and a tie that goes to even.\<close>

lemma number_add_tenths:
  "number_add (Finite False (3602879701896397 / 2 ^ 55)) (Finite False (3602879701896397 / 2 ^ 54)) =
     Finite False (1351079888211149 / 2 ^ 52)"
  by code_simp

lemma number_add_tie: "number_add (Finite False (2 ^ 53)) (Finite False 1) = Finite False (2 ^ 53)"
  by code_simp

section \<open>Properties of the evaluator\<close>

lemmas evaluator_defs =
  evaluateInfixExpression_def evaluateIntegerInfixExpression_def
  evaluateBooleanInfixExpression_def evaluatePrefixExpression_def
  evaluateBangOperatorExpression_def evaluateMinusOperatorExpression_def
  toBooleanLiteral_def new_Integer_def new_BooleanLiteral_def new_Null_def
  TRUE_def FALSE_def NULL_def

subsection \<open>Object creation\<close>

text \<open>
  An evaluation never lowers the counter of created objects, and an object that it
  returns is one of the three shared objects or was created during this evaluation.
  So the object that a \<open>new\<close> expression creates at counter \<open>h\<close> has the reference
  of no object that an earlier evaluation returned.
\<close>

lemma created_in_mono:
  "created_in h1 h2 r \<Longrightarrow> h0 \<le> h1 \<Longrightarrow> h2 \<le> h3 \<Longrightarrow> created_in h0 h3 r"
  by (cases r) (auto split: ref.splits)

lemma evaluatePrefixExpression_allocates:
  assumes "evaluatePrefixExpression operator operand h = (r, h')"
  shows "h \<le> h' \<and> created_in h h' r"
  using assms by (auto simp: evaluator_defs Let_def split: if_splits)

lemma evaluateInfixExpression_allocates:
  assumes "evaluateInfixExpression operator left right h = (obj, h')"
  shows "h \<le> h' \<and> created_in h h' (Obj obj)"
  using assms by (auto simp: evaluator_defs Let_def split: if_splits)

lemma evaluate_allocates:
  "evaluate node h = (r, h') \<Longrightarrow> h \<le> h' \<and> created_in h h' r"
  "evaluateStatements statements result h = (r, h') \<Longrightarrow>
     h \<le> h' \<and> (statements \<noteq> [] \<longrightarrow> created_in h h' r)"
proof (induction node h and statements result h arbitrary: r h' and r h'
    rule: evaluate_evaluateStatements.induct)
  case (1 statements h)
  then show ?case by (cases statements) auto
next
  case (2 expression h)
  then show ?case by simp
next
  case (3 v h)
  then show ?case by (auto simp: new_Integer_def)
next
  case (4 v h)
  then show ?case by (auto simp: evaluator_defs)
next
  case (5 operator right h)
  obtain x h1 where x: "evaluate right h = (x, h1)" by (cases "evaluate right h")
  note ih = "5.IH" [OF x]
  show ?case
  proof (cases x)
    case (Obj obj)
    then have "evaluatePrefixExpression operator obj h1 = (r, h')"
      using "5.prems" x by simp
    from evaluatePrefixExpression_allocates [OF this]
    have a: "h1 \<le> h'" "created_in h1 h' r" by blast+
    have "created_in h h' r"
      using a(2) by (rule created_in_mono) (use ih in simp_all)
    then show ?thesis using a(1) ih by simp
  next
    case JSnull
    then show ?thesis using "5.prems" x ih by auto
  next
    case JSundefined
    then show ?thesis using "5.prems" x ih by auto
  qed
next
  case (6 operator left right h)
  obtain l h1 where l: "evaluate left h = (l, h1)" by (cases "evaluate left h")
  obtain x h2 where x: "evaluate right h1 = (x, h2)" by (cases "evaluate right h1")
  note ih1 = "6.IH"(1) [OF l]
  note ih2 = "6.IH"(2) [OF l [symmetric] x]
  show ?case
  proof (cases "\<exists>lo ro. l = Obj lo \<and> x = Obj ro")
    case True
    then obtain lo ro where o: "l = Obj lo" "x = Obj ro" by blast
    obtain obj h3 where e: "evaluateInfixExpression operator lo ro h2 = (obj, h3)"
      by (cases "evaluateInfixExpression operator lo ro h2")
    then have r: "r = Obj obj" "h' = h3" using "6.prems" l x o by simp_all
    from evaluateInfixExpression_allocates [OF e]
    have a: "h2 \<le> h3" "created_in h2 h3 (Obj obj)" by blast+
    have "created_in h h3 (Obj obj)"
      using a(2) by (rule created_in_mono) (use ih1 ih2 in simp_all)
    then show ?thesis using a(1) ih1 ih2 r by simp
  next
    case False
    then have "r = JSundefined" "h' = h2"
      using "6.prems" l x by (cases l; cases x; simp)+
    with ih1 ih2 show ?thesis by simp
  qed
next
  case (10 result h)
  then show ?case by simp
next
  case (11 statement statements result h)
  obtain x h1 where x: "evaluate statement h = (x, h1)" by (cases "evaluate statement h")
  note ih1 = "11.IH"(1) [OF x]
  have rest: "evaluateStatements statements x h1 = (r, h')" using "11.prems" x by simp
  note ih2 = "11.IH"(2) [OF x [symmetric] rest]
  show ?case
  proof (cases statements)
    case Nil
    then show ?thesis using rest ih1 by simp
  next
    case (Cons s ss)
    then have a: "h1 \<le> h'" "created_in h1 h' r" using ih2 by blast+
    have "created_in h h' r"
      using a(2) by (rule created_in_mono) (use ih1 in simp_all)
    then show ?thesis using a(1) ih1 by simp
  qed
qed simp_all

subsection \<open>The statements of a program\<close>

lemma evaluateStatements_append:
  "evaluateStatements (xs @ ys) result h =
     (case evaluateStatements xs result h of (result', h') \<Rightarrow> evaluateStatements ys result' h')"
  by (induction xs arbitrary: result h) (auto split: prod.splits)

lemma evaluateStatements_heap:
  "snd (evaluateStatements statements result h) = fold (\<lambda>s h'. snd (evaluate s h')) statements h"
  by (induction statements arbitrary: result h) (auto split: prod.splits)

text \<open>
  C6. A program with at least one statement, \<open>statements @ [statement]\<close>, evaluates to
  exactly what its last statement evaluates to. The earlier statements are evaluated
  first, one after the other in source order (the fold threads the object counter
  through them from left to right), and their results are dropped: only the objects
  they created are counted.
\<close>

theorem evaluate_Program_last:
  "evaluate (Program (statements @ [statement])) h =
     evaluate statement (fold (\<lambda>s h'. snd (evaluate s h')) statements h)"
proof -
  obtain r h' where e: "evaluateStatements statements JSundefined h = (r, h')"
    by (cases "evaluateStatements statements JSundefined h")
  have "h' = fold (\<lambda>s h'. snd (evaluate s h')) statements h"
    using evaluateStatements_heap [of statements JSundefined h] e by simp
  moreover have "evaluate (Program (statements @ [statement])) h = evaluate statement h'"
    using e by (simp add: evaluateStatements_append split: prod.splits)
  ultimately show ?thesis by simp
qed

subsection \<open>Node kinds without a case\<close>

text \<open>
  C10. Of the node kinds of the tree, \<open>evaluate\<close> has a case for \<open>Program\<close>,
  \<open>ExpressionStatement\<close>, \<open>IntegerLiteral\<close>, \<open>BooleanExpression\<close>,
  \<open>PrefixExpression\<close> and \<open>InfixExpression\<close>. A node of any other kind
  (\<open>LetStatement\<close>, \<open>ReturnStatement\<close>, \<open>Identifier\<close>) evaluates to \<open>null\<close>, and a
  program with no statement to \<open>undefined\<close>: an absent result, with no object created.
\<close>

theorem evaluate_unhandled_kinds:
  "evaluate (LetStatement name v) h = (JSnull, h) \<and>
   evaluate (ReturnStatement returnValue) h = (JSnull, h) \<and>
   evaluate (Identifier x) h = (JSnull, h) \<and>
   evaluate (Program []) h = (JSundefined, h) \<and>
   absent JSnull \<and> absent JSundefined"
  by simp

subsection \<open>The prefix operator \<open>-\<close>\<close>

text \<open>
  C5. The prefix operator \<open>-\<close> on an \<open>Integer\<close> returns a newly created \<open>Integer\<close> that
  carries the negated value: the sign of a finite or infinite value is flipped and its
  magnitude kept (\<open>NaN\<close> stays \<open>NaN\<close>), so the negation of the integer \<open>i\<close> equals
  \<open>- i\<close>, and \<open>-5\<close> evaluates to an \<open>Integer\<close> carrying \<open>- 5\<close>. On a \<open>BooleanLiteral\<close> or
  a \<open>Null\<close> it returns \<open>null\<close>, which is no object. So \<open>-true\<close> evaluates to \<open>null\<close>.
\<close>

theorem evaluateMinusOperatorExpression_cases:
  "evaluateMinusOperatorExpression (Integer r v) h =
     (Obj (Integer (Allocated h) (number_neg v)), Suc h) \<and>
   evaluateMinusOperatorExpression (BooleanLiteral r b) h = (JSnull, h) \<and>
   evaluateMinusOperatorExpression (Null r) h = (JSnull, h) \<and>
   evaluate (PrefixExpression ''-'' (BooleanExpression True)) h = (JSnull, h) \<and>
   evaluateMinusOperatorExpression (Integer r (Finite s q)) h =
     (Obj (Integer (Allocated h) (Finite (\<not> s) q)), Suc h) \<and>
   evaluateMinusOperatorExpression (Integer r (Infinity s)) h =
     (Obj (Integer (Allocated h) (Infinity (\<not> s))), Suc h) \<and>
   evaluateMinusOperatorExpression (Integer r NaN) h = (Obj (Integer (Allocated h) NaN), Suc h) \<and>
   evaluateMinusOperatorExpression (Integer r (number_of_int i)) h =
     (Obj (Integer (Allocated h) (Finite (\<not> i < 0) (of_int \<bar>i\<bar>))), Suc h) \<and>
   number_eq (Finite (\<not> i < 0) (of_int \<bar>i\<bar>)) (number_of_int (- i)) \<and>
   evaluate (PrefixExpression ''-'' (IntegerLiteral (number_of_int 5))) 0 =
     (Obj (Integer (Allocated 1) (number_of_int (- 5))), 2)"
  by (simp add: evaluator_defs number_of_int_def number_eq_def signed_def del: of_int_abs)

subsection \<open>Absent operands\<close>

text \<open>
  C8. When the operand of a prefix expression evaluates to an absent result, the prefix
  expression evaluates to that same absent result. When an operand of an infix
  expression evaluates to an absent result (the right operand being evaluated after the
  left one), the infix expression evaluates to \<open>undefined\<close>. No operator is applied
  and \<open>NULL\<close> is not returned in its place.
\<close>

theorem absent_propagates:
  "(absent (fst (evaluate operand h)) \<longrightarrow>
      evaluate (PrefixExpression prefix_operator operand) h = evaluate operand h) \<and>
   (absent (fst (evaluate left h)) \<or> absent (fst (evaluate right (snd (evaluate left h)))) \<longrightarrow>
      fst (evaluate (InfixExpression operator left right) h) = JSundefined)"
proof -
  obtain l h1 where l: "evaluate left h = (l, h1)" by (cases "evaluate left h")
  obtain r h2 where r: "evaluate right h1 = (r, h2)" by (cases "evaluate right h1")
  obtain x h3 where x: "evaluate operand h = (x, h3)" by (cases "evaluate operand h")
  have "absent x \<longrightarrow> evaluate (PrefixExpression prefix_operator operand) h = evaluate operand h"
    using x by (cases x) auto
  moreover have "absent l \<or> absent r \<longrightarrow>
      fst (evaluate (InfixExpression operator left right) h) = JSundefined"
    using l r by (cases l; cases r) auto
  ultimately show ?thesis using l r x by simp
qed

theorem absent_propagates_witness:
  "absent (fst (evaluate (Identifier ''x'') 0)) \<and>
   evaluate (PrefixExpression ''-'' (Identifier ''x'')) 0 = (JSnull, 0) \<and>
   (absent (fst (evaluate (IntegerLiteral (Finite False 1)) 0)) \<or>
    absent (fst (evaluate (Identifier ''x'') (snd (evaluate (IntegerLiteral (Finite False 1)) 0))))) \<and>
   fst (evaluate (InfixExpression ''+'' (IntegerLiteral (Finite False 1)) (Identifier ''x'')) 0) =
     JSundefined"
  using absent_propagates [where operand = "Identifier ''x''" and h = 0 and prefix_operator = "''-''"
      and left = "IntegerLiteral (Finite False 1)" and right = "Identifier ''x''"
      and operator = "''+''"]
  by simp

subsection \<open>Infix operators on two Integers\<close>

text \<open>
  C3. On two \<open>Integer\<close> operands the operators \<open>+\<close>, \<open>-\<close>, \<open>*\<close> and \<open>/\<close> return a
  newly created \<open>Integer\<close> that carries the sum, difference, product or quotient of the
  host's number type. When the operands carry the integers \<open>a\<close> and \<open>b\<close> and the exact
  result is below \<open>2^53\<close> in magnitude, the \<open>Integer\<close> carries \<open>a + b\<close>, \<open>a - b\<close> or
  \<open>a * b\<close> (a product that is zero carries a zero with the sign of the product). The
  quotient is the floating-point one and is never truncated: it is \<open>a div b\<close> when \<open>b\<close>
  divides \<open>a\<close>, and it is not integral when \<open>b\<close> does not divide \<open>a\<close> (both below
  \<open>2^53\<close>); \<open>5 / 2\<close> evaluates to an \<open>Integer\<close> carrying \<open>2.5\<close>, not \<open>2\<close>.
\<close>

theorem integer_arithmetic:
  "evaluateInfixExpression ''+'' (Integer r x) (Integer r' y) h =
     (Integer (Allocated h) (number_add x y), Suc h) \<and>
   evaluateInfixExpression ''-'' (Integer r x) (Integer r' y) h =
     (Integer (Allocated h) (number_sub x y), Suc h) \<and>
   evaluateInfixExpression ''*'' (Integer r x) (Integer r' y) h =
     (Integer (Allocated h) (number_mul x y), Suc h) \<and>
   evaluateInfixExpression ''/'' (Integer r x) (Integer r' y) h =
     (Integer (Allocated h) (number_div x y), Suc h) \<and>
   (\<bar>a + b\<bar> < 2 ^ 53 \<longrightarrow>
    evaluateInfixExpression ''+'' (Integer r (number_of_int a)) (Integer r' (number_of_int b)) h =
      (Integer (Allocated h) (number_of_int (a + b)), Suc h)) \<and>
   (\<bar>a - b\<bar> < 2 ^ 53 \<longrightarrow>
    evaluateInfixExpression ''-'' (Integer r (number_of_int a)) (Integer r' (number_of_int b)) h =
      (Integer (Allocated h) (number_of_int (a - b)), Suc h)) \<and>
   (a * b \<noteq> 0 \<and> \<bar>a * b\<bar> < 2 ^ 53 \<longrightarrow>
    evaluateInfixExpression ''*'' (Integer r (number_of_int a)) (Integer r' (number_of_int b)) h =
      (Integer (Allocated h) (number_of_int (a * b)), Suc h)) \<and>
   (c * d = 0 \<longrightarrow>
    evaluateInfixExpression ''*'' (Integer r (number_of_int c)) (Integer r' (number_of_int d)) h =
      (Integer (Allocated h) (Finite ((c < 0) \<noteq> (d < 0)) 0), Suc h)) \<and>
   (a \<noteq> 0 \<and> b dvd a \<and> \<bar>a\<bar> < 2 ^ 53 \<longrightarrow>
    evaluateInfixExpression ''/'' (Integer r (number_of_int a)) (Integer r' (number_of_int b)) h =
      (Integer (Allocated h) (number_of_int (a div b)), Suc h)) \<and>
   (k \<noteq> 0 \<and> \<not> k dvd n \<and> \<bar>n\<bar> < 2 ^ 53 \<and> \<bar>k\<bar> < 2 ^ 53 \<longrightarrow>
    \<not> is_integral (Integer_value (fst
      (evaluateInfixExpression ''/'' (Integer r (number_of_int n)) (Integer r' (number_of_int k)) h)))) \<and>
   evaluate (InfixExpression ''/'' (IntegerLiteral (number_of_int 5)) (IntegerLiteral (number_of_int 2))) 0 =
     (Obj (Integer (Allocated 2) (Finite False (5 / 2))), 3) \<and>
   \<not> is_integral (Finite False (5 / 2)) \<and>
   Finite False (5 / 2) \<noteq> number_of_int (5 div 2)"
proof -
  have general: "evaluateInfixExpression ''+'' (Integer r x) (Integer r' y) h =
      (Integer (Allocated h) (number_add x y), Suc h)"
    "evaluateInfixExpression ''-'' (Integer r x) (Integer r' y) h =
      (Integer (Allocated h) (number_sub x y), Suc h)"
    "evaluateInfixExpression ''*'' (Integer r x) (Integer r' y) h =
      (Integer (Allocated h) (number_mul x y), Suc h)"
    "evaluateInfixExpression ''/'' (Integer r x) (Integer r' y) h =
      (Integer (Allocated h) (number_div x y), Suc h)" for x y
    by (simp_all add: evaluator_defs)
  have not_integral: "\<not> is_integral (number_div (number_of_int n) (number_of_int k))"
    if "k \<noteq> 0" "\<not> k dvd n" "\<bar>n\<bar> < 2 ^ 53" "\<bar>k\<bar> < 2 ^ 53"
    using number_div_of_int_not_integral [OF that] by auto
  have d: "number_div (Finite False 5) (Finite False 2) = Finite False (5 / 2)"
    by code_simp
  have i: "\<not> is_integral (Finite False (5 / 2))"
    by code_simp
  have t: "Finite False (5 / 2) \<noteq> number_of_int (5 div 2)"
    by (simp add: number_of_int_def)
  have five: "evaluate (InfixExpression ''/'' (IntegerLiteral (number_of_int 5))
      (IntegerLiteral (number_of_int 2))) 0 = (Obj (Integer (Allocated 2) (Finite False (5 / 2))), 3)"
    using d by (simp add: evaluator_defs number_of_int_def)
  have p_add: "evaluateInfixExpression ''+'' (Integer r (number_of_int a)) (Integer r' (number_of_int b)) h =
      (Integer (Allocated h) (number_of_int (a + b)), Suc h)" if "\<bar>a + b\<bar> < 2 ^ 53"
    by (simp only: general number_add_of_int [OF that])
  have p_sub: "evaluateInfixExpression ''-'' (Integer r (number_of_int a)) (Integer r' (number_of_int b)) h =
      (Integer (Allocated h) (number_of_int (a - b)), Suc h)" if "\<bar>a - b\<bar> < 2 ^ 53"
    by (simp only: general number_sub_of_int [OF that])
  have p_mul: "evaluateInfixExpression ''*'' (Integer r (number_of_int a)) (Integer r' (number_of_int b)) h =
      (Integer (Allocated h) (number_of_int (a * b)), Suc h)" if "a * b \<noteq> 0" "\<bar>a * b\<bar> < 2 ^ 53"
    by (simp only: general number_mul_of_int [OF that])
  have p_zero: "evaluateInfixExpression ''*'' (Integer r (number_of_int c)) (Integer r' (number_of_int d)) h =
      (Integer (Allocated h) (Finite ((c < 0) \<noteq> (d < 0)) 0), Suc h)" if "c * d = 0"
    by (simp only: general number_mul_of_int_zero [OF that])
  have p_div: "evaluateInfixExpression ''/'' (Integer r (number_of_int a)) (Integer r' (number_of_int b)) h =
      (Integer (Allocated h) (number_of_int (a div b)), Suc h)" if "a \<noteq> 0" "b dvd a" "\<bar>a\<bar> < 2 ^ 53"
    by (simp only: general number_div_of_int [OF that])
  have p_frac: "\<not> is_integral (Integer_value (fst
      (evaluateInfixExpression ''/'' (Integer r (number_of_int n)) (Integer r' (number_of_int k)) h)))"
    if "k \<noteq> 0" "\<not> k dvd n" "\<bar>n\<bar> < 2 ^ 53" "\<bar>k\<bar> < 2 ^ 53"
    using not_integral [OF that] by (simp add: general)
  show ?thesis
    using general [of x y] p_add p_sub p_mul p_zero p_div p_frac five i t by blast
qed

theorem integer_arithmetic_witness:
  "\<bar>6 + 3\<bar> < (2 :: int) ^ 53 \<and>
   evaluateInfixExpression ''+'' (Integer (Allocated 0) (number_of_int 6))
     (Integer (Allocated 1) (number_of_int 3)) 2 = (Integer (Allocated 2) (number_of_int 9), 3) \<and>
   \<bar>6 - 3\<bar> < (2 :: int) ^ 53 \<and>
   evaluateInfixExpression ''-'' (Integer (Allocated 0) (number_of_int 6))
     (Integer (Allocated 1) (number_of_int 3)) 2 = (Integer (Allocated 2) (number_of_int 3), 3) \<and>
   (6 :: int) * 3 \<noteq> 0 \<and> \<bar>6 * 3\<bar> < (2 :: int) ^ 53 \<and>
   evaluateInfixExpression ''*'' (Integer (Allocated 0) (number_of_int 6))
     (Integer (Allocated 1) (number_of_int 3)) 2 = (Integer (Allocated 2) (number_of_int 18), 3) \<and>
   (0 :: int) * (- 3) = 0 \<and>
   evaluateInfixExpression ''*'' (Integer (Allocated 0) (number_of_int 0))
     (Integer (Allocated 1) (number_of_int (- 3))) 2 = (Integer (Allocated 2) (Finite True 0), 3) \<and>
   (6 :: int) \<noteq> 0 \<and> (3 :: int) dvd 6 \<and> \<bar>6\<bar> < (2 :: int) ^ 53 \<and>
   evaluateInfixExpression ''/'' (Integer (Allocated 0) (number_of_int 6))
     (Integer (Allocated 1) (number_of_int 3)) 2 = (Integer (Allocated 2) (number_of_int 2), 3) \<and>
   (2 :: int) \<noteq> 0 \<and> \<not> (2 :: int) dvd 5 \<and> \<bar>5\<bar> < (2 :: int) ^ 53 \<and> \<bar>2\<bar> < (2 :: int) ^ 53 \<and>
   \<not> is_integral (Integer_value (fst
     (evaluateInfixExpression ''/'' (Integer (Allocated 0) (number_of_int 5))
        (Integer (Allocated 1) (number_of_int 2)) 2)))"
  using integer_arithmetic [where a = 6 and b = 3 and c = 0 and d = "- 3" and n = 5 and k = 2
      and r = "Allocated 0" and r' = "Allocated 1" and h = 2 and x = NaN and y = NaN]
  by simp

text \<open>
  C3, as stated for all Integer operands, fails: results are rounded to binary64, and
  \<open>2^53 + 1\<close> evaluates to an \<open>Integer\<close> carrying \<open>2^53\<close>.
\<close>

theorem integer_addition_rounds:
  "evaluate (InfixExpression ''+'' (IntegerLiteral (number_of_int (2 ^ 53)))
      (IntegerLiteral (number_of_int 1))) 0 =
     (Obj (Integer (Allocated 2) (number_of_int (2 ^ 53))), 3) \<and>
   number_of_int (2 ^ 53) \<noteq> number_of_int (2 ^ 53 + 1)"
  using number_add_tie by (simp add: evaluator_defs number_of_int_def)

text \<open>
  The four comparisons on two \<open>Integer\<close> operands: each creates a \<open>BooleanLiteral\<close>
  that carries the outcome of the comparison.
\<close>

lemma integer_comparisons:
  "evaluateInfixExpression ''<'' (Integer r a) (Integer r' b) h =
     (BooleanLiteral (Allocated h) (number_lt a b), Suc h) \<and>
   evaluateInfixExpression ''>'' (Integer r a) (Integer r' b) h =
     (BooleanLiteral (Allocated h) (number_gt a b), Suc h) \<and>
   evaluateInfixExpression ''=='' (Integer r a) (Integer r' b) h =
     (BooleanLiteral (Allocated h) (number_eq a b), Suc h) \<and>
   evaluateInfixExpression ''!='' (Integer r a) (Integer r' b) h =
     (BooleanLiteral (Allocated h) (number_ne a b), Suc h)"
  by (simp add: evaluator_defs)

text \<open>
  C1. Not every Boolean that the evaluator returns is one of the shared objects:
  \<open>1 < 2\<close> evaluates to a \<open>BooleanLiteral\<close> created by \<open>new\<close>, the third object of the
  evaluation, whose reference is not that of \<open>TRUE\<close>.
\<close>

theorem integer_comparison_not_shared:
  "evaluate (InfixExpression ''<'' (IntegerLiteral (Finite False 1)) (IntegerLiteral (Finite False 2))) 0 =
     (Obj (BooleanLiteral (Allocated 2) True), 3) \<and>
   ref_of (BooleanLiteral (Allocated 2) True) \<noteq> ref_of TRUE"
  by (simp add: evaluator_defs number_lt_def signed_def)

subsection \<open>The prefix operator \<open>!\<close>\<close>

text \<open>
  On the three shared objects and on an \<open>Integer\<close> the operator \<open>!\<close> is the negation
  of truthiness, and \<open>!!true\<close> evaluates to the shared \<open>TRUE\<close>.
\<close>

lemma evaluateBangOperatorExpression_shared:
  "evaluateBangOperatorExpression TRUE = FALSE \<and>
   evaluateBangOperatorExpression FALSE = TRUE \<and>
   evaluateBangOperatorExpression NULL = TRUE \<and>
   evaluateBangOperatorExpression (Integer (Allocated n) v) = FALSE \<and>
   evaluate (PrefixExpression ''!'' (PrefixExpression ''!'' (BooleanExpression True))) h = (Obj TRUE, h)"
  by (simp add: evaluator_defs)

text \<open>
  C2. The operator \<open>!\<close> does not return \<open>TRUE\<close> on every false Boolean and on every
  Null: \<open>!(1 > 2)\<close> evaluates to \<open>FALSE\<close>, because the operand is a false
  \<open>BooleanLiteral\<close> that is not the object \<open>FALSE\<close>; a \<open>Null\<close> that is not the object
  \<open>NULL\<close> is negated to \<open>FALSE\<close> as well.
\<close>

theorem bang_of_integer_comparison:
  "evaluate (PrefixExpression ''!''
      (InfixExpression ''>'' (IntegerLiteral (Finite False 1)) (IntegerLiteral (Finite False 2)))) 0 =
     (Obj FALSE, 3) \<and>
   evaluateBangOperatorExpression (BooleanLiteral (Allocated 2) False) = FALSE \<and>
   evaluateBangOperatorExpression (Null (Allocated 2)) = FALSE"
  by (simp add: evaluator_defs number_lt_def number_gt_def signed_def)

subsection \<open>Infix operators on other operands\<close>

text \<open>
  Operands that are neither two Integers nor two Booleans: whatever the operator, a
  \<open>Null\<close> object is created and returned.
\<close>

lemma evaluateInfixExpression_other:
  "evaluateInfixExpression operator (Integer r a) (BooleanLiteral r' b) h = (Null (Allocated h), Suc h) \<and>
   evaluateInfixExpression operator (BooleanLiteral r' b) (Integer r a) h = (Null (Allocated h), Suc h) \<and>
   evaluateInfixExpression operator (Null r) right h = (Null (Allocated h), Suc h) \<and>
   evaluateInfixExpression operator left (Null r) h = (Null (Allocated h), Suc h)"
  by (cases left; cases right) (simp_all add: evaluator_defs)

text \<open>
  C4. The result for mismatched operand types is a Null, but not the shared one:
  \<open>1 + true\<close> evaluates to a \<open>Null\<close> created by \<open>new\<close>, whose reference is not that of
  \<open>NULL\<close>, and \<open>!(1 + true)\<close> evaluates to \<open>FALSE\<close>.
\<close>

theorem mismatched_infix_not_shared:
  "evaluate (InfixExpression ''+'' (IntegerLiteral (Finite False 1)) (BooleanExpression True)) 0 =
     (Obj (Null (Allocated 1)), 2) \<and>
   ref_of (Null (Allocated 1)) \<noteq> ref_of NULL \<and>
   evaluate (PrefixExpression ''!''
      (InfixExpression ''+'' (IntegerLiteral (Finite False 1)) (BooleanExpression True))) 0 =
     (Obj FALSE, 2)"
  by (simp add: evaluator_defs)

text \<open>
  Two Booleans: \<open>==\<close> and \<open>!=\<close> compare the two payloads and return the shared object
  for the outcome; any other operator creates a \<open>Null\<close>.
\<close>

lemma evaluateBooleanInfixExpression_cases:
  "evaluateInfixExpression ''=='' (BooleanLiteral r a) (BooleanLiteral r' b) h =
     ((if a = b then TRUE else FALSE), h) \<and>
   evaluateInfixExpression ''!='' (BooleanLiteral r a) (BooleanLiteral r' b) h =
     ((if a \<noteq> b then TRUE else FALSE), h) \<and>
   (operator \<noteq> ''=='' \<and> operator \<noteq> ''!='' \<longrightarrow>
    evaluateInfixExpression operator (BooleanLiteral r a) (BooleanLiteral r' b) h =
     (Null (Allocated h), Suc h))"
  by (simp add: evaluator_defs)

text \<open>
  C7. An operator other than \<open>==\<close> and \<open>!=\<close> on two Booleans does not return the shared
  \<open>NULL\<close>: \<open>true + true\<close> evaluates to a \<open>Null\<close> created by \<open>new\<close>, whose reference
  is not that of \<open>NULL\<close>.
\<close>

theorem boolean_infix_not_shared:
  "evaluate (InfixExpression ''+'' (BooleanExpression True) (BooleanExpression True)) 0 =
     (Obj (Null (Allocated 0)), 1) \<and>
   ref_of (Null (Allocated 0)) \<noteq> ref_of NULL"
  by (simp add: evaluator_defs)

subsection \<open>Termination\<close>

text \<open>
  C9. \<open>evaluate\<close> terminates on every node, and the loop of \<open>evaluateStatements\<close> on
  every list of statements: every call is in the accessible part of the relation
  between a recursive call and the call that makes it, so no chain of recursive calls
  goes on for ever. The relation is well-founded because each call is on a smaller tree
  than its caller's (\<open>call_size\<close>): the recursion follows the structure of the tree.
\<close>

lemma recursive_call_smaller:
  "evaluate_evaluateStatements_rel x y \<Longrightarrow> call_size x < call_size y"
  by (erule evaluate_evaluateStatements_rel.cases) auto

theorem evaluate_terminates:
  "evaluate_evaluateStatements_dom (Inl (node, h)) \<and>
   evaluate_evaluateStatements_dom (Inr (statements, result, h))"
proof -
  have "wfp evaluate_evaluateStatements_rel"
    by (rule wfp_if_convertible_to_nat [of _ call_size]) (rule recursive_call_smaller)
  then show ?thesis
    by (simp add: accp_wfpD)
qed

end
